theory Spec2Isabelle
  imports Complex_Main
begin

section \<open>Arrays, errors and library primitives\<close>

text \<open>
  The module \<^verbatim>\<open>features/spectral.py\<close> works on two-dimensional numpy arrays of
  floating-point amplitudes. An array carries its shape, so a matrix is a record of its
  column count and its rows (an array of shape (0, c) has a column count and no row).
  Amplitudes and frequencies are real numbers; infinities and NaN are outside the model.
  The float64 operations that produce the bin frequencies, the harmonic targets, the
  distances to them and the filter gains round their results, and the equality and order
  tests of the module look at the rounded values. These operations are a parameter of
  the model (\<open>float_ops\<close>): nothing is assumed about how they round, so what is proved
  for every choice of them holds for IEEE 754 arithmetic. Comparisons are exact, and so
  is the product of an amplitude with a gain of 0 or 1. The quotients and means of the
  feature formulas are written with the arithmetic of \<^typ>\<open>real\<close>; a quotient of
  arrays never raises in numpy (it yields inf or nan).
\<close>

record matrix =
  ncols :: nat
  rows :: "real list list"

definition wf_matrix :: "matrix \<Rightarrow> bool" where
  "wf_matrix m \<longleftrightarrow> (\<forall>r \<in> set (rows m). length r = ncols m)"

record float_ops =
  fl_mul :: "real \<Rightarrow> real \<Rightarrow> real"
  fl_div :: "real \<Rightarrow> real \<Rightarrow> real"
  fl_sub :: "real \<Rightarrow> real \<Rightarrow> real"

text \<open>
  Arithmetic without rounding error. The float64 operations agree with it wherever the
  exact result is a float64 number, as it is for the small integers and dyadic fractions
  of the examples below.
\<close>

definition exact_arith :: float_ops where
  "exact_arith = \<lparr>fl_mul = (*), fl_div = (/), fl_sub = (-)\<rparr>"

text \<open>
  Every exception that the modelled code can raise. The two errors raised by the module
  itself carry the value that their message names.
\<close>

datatype error =
    ZeroDivisionError
  | IndexError
  | EmptySequence
  | NoArrays
  | BroadcastError
  | InvalidMainsFrequency real
  | UnsupportedFilterType string

definition POWER_FREQUENCY :: real where
  "POWER_FREQUENCY = 50"

definition SAMPLING_RATE :: real where
  "SAMPLING_RATE = 6400"

text \<open>
  \<^verbatim>\<open>np.argmin\<close> and \<^verbatim>\<open>np.argmax\<close> on one axis: the first index of a least
  (greatest) entry; both raise ValueError on an axis of length 0.
\<close>

fun argmin_list :: "'a::linorder list \<Rightarrow> nat" where
  "argmin_list [] = 0"
| "argmin_list [x] = 0"
| "argmin_list (x # y # ys) =
     (let j = argmin_list (y # ys) in if x \<le> (y # ys) ! j then 0 else Suc j)"

fun argmax_list :: "'a::linorder list \<Rightarrow> nat" where
  "argmax_list [] = 0"
| "argmax_list [x] = 0"
| "argmax_list (x # y # ys) =
     (let j = argmax_list (y # ys) in if (y # ys) ! j \<le> x then 0 else Suc j)"

definition argmin :: "'a::linorder list \<Rightarrow> error + nat" where
  "argmin xs = (if xs = [] then Inl EmptySequence else Inr (argmin_list xs))"

definition argmax :: "'a::linorder list \<Rightarrow> error + nat" where
  "argmax xs = (if xs = [] then Inl EmptySequence else Inr (argmax_list xs))"

text \<open>
  \<^verbatim>\<open>rfftfreq(n)\<close> with the default sample spacing 1.0, as numpy defines it:
  \<^verbatim>\<open>val = 1.0/(n*d); N = n//2 + 1; return arange(0, N) * val\<close>. The quotient is one of
  Python floats, so \<^verbatim>\<open>n = 0\<close> raises ZeroDivisionError; a negative \<^verbatim>\<open>n\<close> gives an
  empty range. The product \<^verbatim>\<open>n*d\<close> with \<^verbatim>\<open>d = 1.0\<close> is \<^verbatim>\<open>n\<close> itself; the
  quotient and the products with the bin numbers are float64 operations.
\<close>

definition rfftfreq :: "float_ops \<Rightarrow> int \<Rightarrow> error + real list" where
  "rfftfreq ops n =
     (if n = 0 then Inl ZeroDivisionError
      else Inr (map (\<lambda>k. fl_mul ops (real k) (fl_div ops 1 (real_of_int n)))
                  [0..<nat (n div 2 + 1)]))"

text \<open>
  Product of a matrix with a one-dimensional array, under numpy's broadcasting: the
  trailing dimensions must agree or one of them must be 1.
\<close>

definition mul_rows :: "matrix \<Rightarrow> real list \<Rightarrow> error + matrix" where
  "mul_rows m v =
     (if ncols m = length v then
        Inr \<lparr>ncols = ncols m, rows = map (\<lambda>r. map2 (*) r v) (rows m)\<rparr>
      else if ncols m = 1 then
        Inr \<lparr>ncols = length v, rows = map (\<lambda>r. map (\<lambda>x. hd r * x) v) (rows m)\<rparr>
      else if length v = 1 then
        Inr \<lparr>ncols = ncols m, rows = map (map (\<lambda>x. x * hd v)) (rows m)\<rparr>
      else Inl BroadcastError)"

text \<open>
  Quotient of two matrices under broadcasting: in each dimension the sizes agree or one
  of them is 1, and a dimension of size 1 is repeated.
\<close>

definition broadcast_dim :: "nat \<Rightarrow> nat \<Rightarrow> nat option" where
  "broadcast_dim a b =
     (if a = b then Some a else if a = 1 then Some b else if b = 1 then Some a else None)"

definition stretch :: "nat \<Rightarrow> 'a list \<Rightarrow> 'a list" where
  "stretch n xs = (if length xs = 1 then replicate n (hd xs) else xs)"

definition div_matrix :: "matrix \<Rightarrow> matrix \<Rightarrow> error + matrix" where
  "div_matrix a b =
     (case (broadcast_dim (length (rows a)) (length (rows b)),
            broadcast_dim (ncols a) (ncols b)) of
        (Some r, Some c) \<Rightarrow>
          Inr \<lparr>ncols = c,
               rows = map2 (\<lambda>x y. map2 (/) (stretch c x) (stretch c y))
                        (stretch r (rows a)) (stretch r (rows b))\<rparr>
      | _ \<Rightarrow> Inl BroadcastError)"

text \<open>
  Column selection. \<^verbatim>\<open>a[:, idxs]\<close> with a list of indices raises IndexError when an
  index is out of bounds; \<^verbatim>\<open>a[:, i]\<close> gives the one-dimensional column;
  the slice \<^verbatim>\<open>a[:, lo:hi]\<close> never raises and stops at the last column.
\<close>

definition take_cols :: "matrix \<Rightarrow> nat list \<Rightarrow> error + matrix" where
  "take_cols m idxs =
     (if \<exists>i \<in> set idxs. ncols m \<le> i then Inl IndexError
      else Inr \<lparr>ncols = length idxs, rows = map (\<lambda>r. map ((!) r) idxs) (rows m)\<rparr>)"

definition column_at :: "matrix \<Rightarrow> nat \<Rightarrow> error + real list" where
  "column_at m i = (if ncols m \<le> i then Inl IndexError else Inr (map (\<lambda>r. r ! i) (rows m)))"

definition slice_cols :: "matrix \<Rightarrow> nat \<Rightarrow> nat \<Rightarrow> matrix" where
  "slice_cols m lo hi =
     \<lparr>ncols = min hi (ncols m) - lo, rows = map (\<lambda>r. take (hi - lo) (drop lo r)) (rows m)\<rparr>"

text \<open>\<^verbatim>\<open>x.reshape(-1, 1)\<close> of a one-dimensional array: one column.\<close>

definition column :: "real list \<Rightarrow> matrix" where
  "column xs = \<lparr>ncols = 1, rows = map (\<lambda>x. [x]) xs\<rparr>"

text \<open>\<^verbatim>\<open>np.sum(m, axis=1)\<close> and \<^verbatim>\<open>np.mean(m, axis=1)\<close>.\<close>

definition sum_axis1 :: "matrix \<Rightarrow> real list" where
  "sum_axis1 m = map sum_list (rows m)"

definition mean_axis1 :: "matrix \<Rightarrow> real list" where
  "mean_axis1 m = map (\<lambda>r. sum_list r / real (length r)) (rows m)"

text \<open>
  \<^verbatim>\<open>np.arange(start, stop, step=step)\<close> on natural numbers with a positive step.
\<close>

definition arange :: "nat \<Rightarrow> nat \<Rightarrow> nat \<Rightarrow> nat list" where
  "arange start stop step = filter (\<lambda>i. (i - start) mod step = 0) [start..<stop]"

text \<open>\<^verbatim>\<open>np.where(xs == v)[0][0]\<close>: the first index that holds \<open>v\<close>, if any.\<close>

fun first_index :: "'a list \<Rightarrow> 'a \<Rightarrow> nat option" where
  "first_index [] v = None"
| "first_index (x # xs) v = (if x = v then Some 0 else map_option Suc (first_index xs v))"

text \<open>
  Modelled from the spec: the helpers \<^verbatim>\<open>rms\<close> and \<^verbatim>\<open>geo_mean\<close> of
  \<^verbatim>\<open>features/helpers.py\<close>, which the module imports. The spec gives
  \<^verbatim>\<open>rms = sqrt(mean(square(values)))\<close>, row-wise, as a single column, and
  \<^verbatim>\<open>geo_mean\<close> as the row-wise geometric mean; the geometric means are kept as one
  value per row, the shape that the quotient with \<^verbatim>\<open>np.mean(axis=1)\<close> in
  \<^verbatim>\<open>spectral_flatness\<close> needs for a result of one row per sample.
\<close>

definition rms :: "matrix \<Rightarrow> matrix" where
  "rms m = column (map (\<lambda>r. sqrt (sum_list (map (\<lambda>x. x\<^sup>2) r) / real (length r))) (rows m))"


section \<open>Windows and bin frequencies\<close>

text \<open>\<^verbatim>\<open>_get_window_from_spectrum\<close>: \<^verbatim>\<open>(spectrum_amp.shape[1] - 1) * 2\<close>.\<close>

definition get_window_from_spectrum :: "matrix \<Rightarrow> int" where
  "get_window_from_spectrum spectrum_amp = (int (ncols spectrum_amp) - 1) * 2"

text \<open>
  \<^verbatim>\<open>_get_harmonics_indices\<close>: the targets are \<^verbatim>\<open>np.arange(1, n+1) * power_frequency\<close>,
  the distances \<^verbatim>\<open>np.abs(freqs - harmonics)\<close> with the subtraction of float64.
  \<^verbatim>\<open>np.dstack([freqs]*n)\<close> raises ValueError for \<^verbatim>\<open>n = 0\<close> (nothing to stack); the
  argmin runs over the axis of the bins and raises when there is no bin.
\<close>

definition clamp_negative :: "real \<Rightarrow> real" where
  "clamp_negative f = (if f < 0 then 0 else f)"

definition harmonic_target :: "float_ops \<Rightarrow> real \<Rightarrow> nat \<Rightarrow> real" where
  "harmonic_target ops power_frequency i = fl_mul ops (real i) power_frequency"

definition get_harmonics_indices ::
    "float_ops \<Rightarrow> real list \<Rightarrow> nat \<Rightarrow> real \<Rightarrow> error + nat list" where
  "get_harmonics_indices ops spectral_freqs n power_frequency =
     (let harmonics = map (harmonic_target ops power_frequency) [1..<n + 1];
          freqs = map clamp_negative spectral_freqs
      in if n = 0 then Inl NoArrays
         else if freqs = [] then Inl EmptySequence
         else Inr (map (\<lambda>h. argmin_list (map (\<lambda>f. \<bar>fl_sub ops f h\<bar>) freqs)) harmonics))"


text \<open>
  \<^verbatim>\<open>spectral_frequencies\<close>: the bin frequencies \<^verbatim>\<open>rfftfreq(window) * sampling_rate\<close>,
  restricted to the harmonic bins when \<^verbatim>\<open>limit_to_harmonics\<close> is set.
\<close>

definition spectral_frequencies ::
    "float_ops \<Rightarrow> int \<Rightarrow> nat \<Rightarrow> bool \<Rightarrow> real \<Rightarrow> real \<Rightarrow> error + real list" where
  "spectral_frequencies ops window n limit_to_harmonics power_frequency sampling_rate =
     (case rfftfreq ops window of
        Inl e \<Rightarrow> Inl e
      | Inr fs \<Rightarrow>
          (let freqs = map (\<lambda>f. fl_mul ops f sampling_rate) fs
           in if limit_to_harmonics then
                (case get_harmonics_indices ops freqs n power_frequency of
                   Inl e \<Rightarrow> Inl e
                 | Inr idxs \<Rightarrow> Inr (map (\<lambda>i. freqs ! i) idxs))
              else Inr freqs))"

text \<open>
  The frequency of bin \<open>k\<close> of a window, as \<^verbatim>\<open>rfftfreq\<close> and
  \<^verbatim>\<open>spectral_frequencies\<close> compute it: \<^verbatim>\<open>(k * (1.0/window)) * sampling_rate\<close> in
  float64 arithmetic.
\<close>

definition bin_frequency :: "float_ops \<Rightarrow> int \<Rightarrow> real \<Rightarrow> nat \<Rightarrow> real" where
  "bin_frequency ops window sampling_rate k =
     fl_mul ops (fl_mul ops (real k) (fl_div ops 1 (real_of_int window))) sampling_rate"

section \<open>Mains frequency amplitude\<close>

text \<open>
  \<^verbatim>\<open>_peak_amplitude_frequency\<close>. The flag \<^verbatim>\<open>all\<close> selects between two results of
  different types, so each value of the flag is a function of its own:
  \<open>peak_amplitude_frequency_all\<close> for \<^verbatim>\<open>all=True\<close> and
  \<open>peak_amplitude_frequency\<close> for \<^verbatim>\<open>all=False\<close>. The argmax over the bins raises on
  a spectrum without columns, \<^verbatim>\<open>freqs[indices]\<close> raises on an index beyond
  \<^verbatim>\<open>freqs\<close>; \<^verbatim>\<open>np.unique\<close> gives the distinct values in ascending order with
  their counts.
\<close>

definition peak_frequencies :: "matrix \<Rightarrow> real list \<Rightarrow> error + real list" where
  "peak_frequencies spectrum_amp freqs =
     (if ncols spectrum_amp = 0 then Inl EmptySequence
      else let indices = map argmax_list (rows spectrum_amp)
           in if \<exists>i \<in> set indices. length freqs \<le> i then Inl IndexError
              else Inr (map ((!) freqs) indices))"

definition peak_amplitude_frequency_all :: "matrix \<Rightarrow> real list \<Rightarrow> error + matrix" where
  "peak_amplitude_frequency_all spectrum_amp freqs =
     (case peak_frequencies spectrum_amp freqs of
        Inl e \<Rightarrow> Inl e
      | Inr peaks \<Rightarrow> Inr (column peaks))"

definition peak_amplitude_frequency :: "matrix \<Rightarrow> real list \<Rightarrow> error + real" where
  "peak_amplitude_frequency spectrum_amp freqs =
     (case peak_frequencies spectrum_amp freqs of
        Inl e \<Rightarrow> Inl e
      | Inr peaks \<Rightarrow>
          (let values = sort (remdups peaks);
               counts = map (count_list peaks) values
           in case argmax counts of
                Inl e \<Rightarrow> Inl e
              | Inr j \<Rightarrow> Inr (values ! j)))"

text \<open>
  \<^verbatim>\<open>_mains_frequency_amplitude\<close>. The mains frequency is a value or \<^verbatim>\<open>None\<close>; only
  the lookup of the bin is inside the \<^verbatim>\<open>try\<close>, so only a missing bin becomes the
  error that names the frequency.
\<close>

definition resolve_mains_frequency :: "matrix \<Rightarrow> real list \<Rightarrow> real option \<Rightarrow> error + real" where
  "resolve_mains_frequency spectrum_amp freqs mains_frequency =
     (case mains_frequency of
        None \<Rightarrow> peak_amplitude_frequency spectrum_amp freqs
      | Some f \<Rightarrow> Inr f)"

definition mains_frequency_amplitude ::
    "float_ops \<Rightarrow> matrix \<Rightarrow> real option \<Rightarrow> real \<Rightarrow> real \<Rightarrow> error + matrix" where
  "mains_frequency_amplitude ops spectrum_amp mains_frequency power_frequency sampling_rate =
     (case spectral_frequencies ops (get_window_from_spectrum spectrum_amp) 20 False
             power_frequency sampling_rate of
        Inl e \<Rightarrow> Inl e
      | Inr freqs \<Rightarrow>
          (case resolve_mains_frequency spectrum_amp freqs mains_frequency of
             Inl e \<Rightarrow> Inl e
           | Inr f \<Rightarrow>
               (case first_index freqs f of
                  None \<Rightarrow> Inl (InvalidMainsFrequency f)
                | Some idx \<Rightarrow> take_cols spectrum_amp [idx])))"

section \<open>Feature formulas\<close>

text \<open>\<^verbatim>\<open>odd_even_ratio\<close>, with the index ranges as the source builds them.\<close>

definition odd_even_ratio :: "matrix \<Rightarrow> error + matrix" where
  "odd_even_ratio harmonics_amp =
     (let odd = arange 0 20 20; even = arange 1 20 20
      in case take_cols harmonics_amp odd of
           Inl e \<Rightarrow> Inl e
         | Inr odd_amp \<Rightarrow>
             (case take_cols harmonics_amp even of
                Inl e \<Rightarrow> Inl e
              | Inr even_amp \<Rightarrow>
                  Inr (column (map2 (/) (mean_axis1 odd_amp) (mean_axis1 even_amp)))))"

text \<open>
  The odd-even ratio of one row as the docstring and the specification give it: the mean
  of the harmonics of orders 1, 3, ..., 19 over the mean of those of orders 2, 4, ..., 20.
\<close>

definition odd_even_ratio_spec :: "real list \<Rightarrow> real" where
  "odd_even_ratio_spec x =
     (sum_list (map ((!) x) [0, 2, 4, 6, 8, 10, 12, 14, 16, 18]) / 10) /
     (sum_list (map ((!) x) [1, 3, 5, 7, 9, 11, 13, 15, 17, 19]) / 10)"


text \<open>\<^verbatim>\<open>harmonics_energy_distribution\<close> and \<^verbatim>\<open>total_harmonic_distortion\<close>.\<close>

definition harmonics_energy_distribution ::
    "float_ops \<Rightarrow> matrix \<Rightarrow> matrix \<Rightarrow> error + matrix" where
  "harmonics_energy_distribution ops harmonics_amp spectrum_amp =
     (case mains_frequency_amplitude ops spectrum_amp (Some POWER_FREQUENCY)
             POWER_FREQUENCY SAMPLING_RATE of
        Inl e \<Rightarrow> Inl e
      | Inr mains \<Rightarrow> div_matrix harmonics_amp mains)"

definition total_harmonic_distortion ::
    "float_ops \<Rightarrow> matrix \<Rightarrow> matrix \<Rightarrow> error + matrix" where
  "total_harmonic_distortion ops harmonics_amp spectrum_amp =
     (let r = rms harmonics_amp
      in case mains_frequency_amplitude ops spectrum_amp (Some POWER_FREQUENCY)
                POWER_FREQUENCY SAMPLING_RATE of
           Inl e \<Rightarrow> Inl e
         | Inr mains \<Rightarrow> div_matrix r mains)"

text \<open>
  \<^verbatim>\<open>tristiumulus\<close>: the sum runs over all columns of the argument, the second
  component takes the columns 1, 2, 3 and the third the slice \<^verbatim>\<open>4:9\<close>.
\<close>

definition tristiumulus :: "matrix \<Rightarrow> error + matrix" where
  "tristiumulus harmonics_amp =
     (let harmonics_sum = sum_axis1 harmonics_amp
      in case column_at harmonics_amp 0 of
           Inl e \<Rightarrow> Inl e
         | Inr c0 \<Rightarrow>
             (let t_1 = map2 (/) c0 harmonics_sum
              in case take_cols harmonics_amp [1, 2, 3] of
                   Inl e \<Rightarrow> Inl e
                 | Inr c123 \<Rightarrow>
                     (let t_2 = map2 (/) (sum_axis1 c123) harmonics_sum;
                          t_3 = map2 (/) (sum_axis1 (slice_cols harmonics_amp 4 9)) harmonics_sum
                      in Inr \<lparr>ncols = 3,
                              rows = map (\<lambda>(a, b, c). [a, b, c]) (zip t_1 (zip t_2 t_3))\<rparr>)))"

text \<open>
  The tristimulus of one row as the docstring and the specification give it, over the
  first 20 harmonic amplitudes.
\<close>

definition tristimulus_spec :: "real list \<Rightarrow> real list" where
  "tristimulus_spec x =
     (let s = sum_list (take 20 x)
      in [x ! 0 / s,
          (x ! 1 + x ! 2 + x ! 3) / s,
          (x ! 4 + x ! 5 + x ! 6 + x ! 7 + x ! 8 + x ! 9) / s])"

section \<open>High-pass filter\<close>

text \<open>
  \<^verbatim>\<open>high_pass_filter\<close>: the bin frequencies are computed first, with the default
  power frequency and sampling rate; then the gain vector is chosen by the filter type.
  The gains of the types \<^verbatim>\<open>zero\<close> and \<^verbatim>\<open>none\<close> are 0 and 1, with which the
  product is exact; the rounding of the product with the other gains is not modelled.
\<close>

definition high_pass_filter ::
    "float_ops \<Rightarrow> matrix \<Rightarrow> string \<Rightarrow> real \<Rightarrow> error + matrix" where
  "high_pass_filter ops spectrum_amp filter_type filter_frequency =
     (case spectral_frequencies ops (get_window_from_spectrum spectrum_amp) 20 False
             POWER_FREQUENCY SAMPLING_RATE of
        Inl e \<Rightarrow> Inl e
      | Inr freqs \<Rightarrow>
          (if filter_type = ''zero'' then
             mul_rows spectrum_amp (map (\<lambda>f. if f < filter_frequency then 0 else 1) freqs)
           else if filter_type = ''linear'' then
             mul_rows spectrum_amp
               (map (\<lambda>f. if f < filter_frequency then fl_div ops f filter_frequency else 1)
                  freqs)
           else if filter_type = ''quadratic'' then
             mul_rows spectrum_amp
               (map (\<lambda>f. if f < filter_frequency
                         then fl_mul ops (fl_div ops f filter_frequency)
                                (fl_div ops f filter_frequency)
                         else 1) freqs)
           else if filter_type = ''none'' then
             mul_rows spectrum_amp (map (\<lambda>f. 1) freqs)
           else Inl (UnsupportedFilterType filter_type)))"

section \<open>Bin frequencies of a spectrum\<close>

text \<open>
  The window implied by a spectrum of \<open>c\<close> columns is \<open>2 (c - 1)\<close>. It is 0 exactly for
  one column, where \<open>rfftfreq\<close> divides by zero; for every other column count the bin
  frequencies exist and there is one per column.
\<close>

lemma spectral_frequencies_full:
  assumes "ncols s \<noteq> 1"
  shows "spectral_frequencies ops (get_window_from_spectrum s) n False pf sr =
         Inr (map (bin_frequency ops (get_window_from_spectrum s) sr) [0..<ncols s])"
proof -
  have w: "get_window_from_spectrum s \<noteq> 0"
    using assms by (simp add: get_window_from_spectrum_def)
  have "nat (get_window_from_spectrum s div 2 + 1) = ncols s"
    by (simp add: get_window_from_spectrum_def)
  with w show ?thesis
    by (simp add: spectral_frequencies_def rfftfreq_def bin_frequency_def)
qed

lemma spectral_frequencies_spectrum:
  assumes "ncols s \<noteq> 1"
  obtains freqs where
    "spectral_frequencies ops (get_window_from_spectrum s) n False pf sr = Inr freqs"
    "length freqs = ncols s"
    "\<And>k. k < ncols s \<Longrightarrow> freqs ! k = bin_frequency ops (get_window_from_spectrum s) sr k"
  using spectral_frequencies_full [OF assms, where ops = ops and n = n and pf = pf and sr = sr] by simp

lemma spectral_frequencies_one_column:
  assumes "ncols s = 1"
  shows "spectral_frequencies ops (get_window_from_spectrum s) n limit pf sr = Inl ZeroDivisionError"
  using assms by (simp add: spectral_frequencies_def rfftfreq_def get_window_from_spectrum_def)

section \<open>Properties of the high-pass filter\<close>

lemma map2_mult_ones:
  "length r = length fs \<Longrightarrow> map2 (*) r (map (\<lambda>f. 1::real) fs) = r"
  by (induction r fs rule: list_induct2) simp_all

lemma mul_rows_ones:
  assumes "wf_matrix m" and "length fs = ncols m"
  shows "mul_rows m (map (\<lambda>f. 1) fs) = Inr m"
proof -
  have "map (\<lambda>r. map2 (*) r (map (\<lambda>f. 1::real) fs)) (rows m) = rows m"
    using assms by (intro map_idI map2_mult_ones) (simp add: wf_matrix_def)
  then show ?thesis
    using assms(2) by (simp add: mul_rows_def)
qed

lemma mul_rows_same_length:
  assumes "length v = ncols m"
  shows "mul_rows m v = Inr \<lparr>ncols = ncols m, rows = map (\<lambda>r. map2 (*) r v) (rows m)\<rparr>"
  using assms by (simp add: mul_rows_def)

lemma high_pass_filter_one_column:
  assumes "ncols S = 1"
  shows "high_pass_filter ops S t f = Inl ZeroDivisionError"
  unfolding high_pass_filter_def spectral_frequencies_one_column [OF assms] by simp

text \<open>
  C5, as stated, fails on a spectrum of one column (the spectrum of a window of a single
  sample): the implied window is 0, the bin frequencies cannot be computed, and the
  filter of type \<^verbatim>\<open>none\<close> raises ZeroDivisionError instead of returning its argument.
\<close>

theorem high_pass_filter_none_one_column:
  "high_pass_filter exact_arith \<lparr>ncols = 1, rows = [[2]]\<rparr> ''none'' 1000 = Inl ZeroDivisionError \<and>
   high_pass_filter exact_arith \<lparr>ncols = 1, rows = [[2]]\<rparr> ''none'' 1000 \<noteq> Inr \<lparr>ncols = 1, rows = [[2]]\<rparr>"
  by (simp add: high_pass_filter_one_column)

text \<open>
  C5 (amended): for every spectrum matrix \<open>S\<close> whose column count is not 1 and every cutoff
  frequency \<open>f\<close>, \<^verbatim>\<open>high_pass_filter(S, 'none', f)\<close> equals \<open>S\<close>.
\<close>

theorem high_pass_filter_none_identity:
  assumes "wf_matrix S" and "ncols S \<noteq> 1"
  shows "high_pass_filter ops S ''none'' f = Inr S"
proof -
  obtain freqs where
    fr: "spectral_frequencies ops (get_window_from_spectrum S) 20 False
           POWER_FREQUENCY SAMPLING_RATE = Inr freqs"
    and len: "length freqs = ncols S"
    using spectral_frequencies_spectrum [OF assms(2)] by metis
  show ?thesis
    unfolding high_pass_filter_def fr
    using mul_rows_ones [OF assms(1) len] by simp
qed

theorem high_pass_filter_none_identity_witness:
  "wf_matrix \<lparr>ncols = 3, rows = [[1, 2, 3], [4, 0, 6]]\<rparr> \<and>
   ncols \<lparr>ncols = 3, rows = [[1, 2, 3], [4, 0, 6]]\<rparr> \<noteq> 1 \<and>
   high_pass_filter exact_arith \<lparr>ncols = 3, rows = [[1, 2, 3], [4, 0, 6]]\<rparr> ''none'' 1000
     = Inr \<lparr>ncols = 3, rows = [[1, 2, 3], [4, 0, 6]]\<rparr>"
proof -
  let ?S = "\<lparr>ncols = 3, rows = [[1, 2, 3], [4, 0, 6]]\<rparr>"
  have wf: "wf_matrix ?S" by (simp add: wf_matrix_def)
  have nc: "ncols ?S \<noteq> 1" by simp
  show ?thesis
    using wf nc high_pass_filter_none_identity [OF wf nc, where ops = exact_arith and f = 1000] by blast
qed

text \<open>
  C6, as stated, fails on a spectrum of one column: the filter of type \<^verbatim>\<open>zero\<close> raises
  ZeroDivisionError there, so the only bin (0 Hz, below the cutoff) is not set to 0.
\<close>

theorem high_pass_filter_zero_one_column:
  "high_pass_filter exact_arith \<lparr>ncols = 1, rows = [[2], [5]]\<rparr> ''zero'' 1000 = Inl ZeroDivisionError"
  by (simp add: high_pass_filter_one_column)

text \<open>
  C6 (amended): for every spectrum matrix whose column count is not 1 and every cutoff
  frequency, \<^verbatim>\<open>high_pass_filter\<close> with filter type \<^verbatim>\<open>zero\<close> returns a matrix of the
  same shape in which every bin whose frequency (the value that the code computes for the
  bin) is strictly below the cutoff is exactly 0 and every bin whose frequency is at or
  above the cutoff is unchanged.
\<close>

theorem high_pass_filter_zero:
  assumes "wf_matrix S" and "ncols S \<noteq> 1"
  shows "\<exists>out. high_pass_filter ops S ''zero'' f = Inr out \<and> wf_matrix out \<and>
           ncols out = ncols S \<and> length (rows out) = length (rows S) \<and>
           (\<forall>i < length (rows S). \<forall>k < ncols S.
              rows out ! i ! k =
                (if bin_frequency ops (get_window_from_spectrum S) SAMPLING_RATE k < f then 0
                 else rows S ! i ! k))"
proof -
  obtain freqs where
    fr: "spectral_frequencies ops (get_window_from_spectrum S) 20 False
           POWER_FREQUENCY SAMPLING_RATE = Inr freqs"
    and len: "length freqs = ncols S"
    and val: "\<And>k. k < ncols S \<Longrightarrow>
       freqs ! k = bin_frequency ops (get_window_from_spectrum S) SAMPLING_RATE k"
    using spectral_frequencies_spectrum [OF assms(2)] by metis
  let ?g = "map (\<lambda>f'. if f' < f then 0 else 1::real) freqs"
  let ?out = "\<lparr>ncols = ncols S, rows = map (\<lambda>r. map2 (*) r ?g) (rows S)\<rparr>"
  have res: "high_pass_filter ops S ''zero'' f = Inr ?out"
    unfolding high_pass_filter_def fr
    using mul_rows_same_length [of ?g S] len by simp
  have rowlen: "length r = ncols S" if "r \<in> set (rows S)" for r
    using assms(1) that by (simp add: wf_matrix_def)
  have wf: "wf_matrix ?out"
    using rowlen len by (auto simp: wf_matrix_def)
  have entry: "rows ?out ! i ! k =
      (if bin_frequency ops (get_window_from_spectrum S) SAMPLING_RATE k < f then 0
       else rows S ! i ! k)" if "i < length (rows S)" and "k < ncols S" for i k
  proof -
    have "length (rows S ! i) = ncols S"
      using rowlen that(1) by simp
    then show ?thesis
      using that len val [OF that(2)] by simp
  qed
  show ?thesis
    using res wf entry by (intro exI [of _ ?out]) simp
qed

theorem high_pass_filter_zero_witness:
  "wf_matrix \<lparr>ncols = 3, rows = [[1, 2, 3]]\<rparr> \<and>
   ncols \<lparr>ncols = 3, rows = [[1, 2, 3]]\<rparr> \<noteq> 1 \<and>
   high_pass_filter exact_arith \<lparr>ncols = 3, rows = [[1, 2, 3]]\<rparr> ''zero'' 1000
     = Inr \<lparr>ncols = 3, rows = [[0, 2, 3]]\<rparr>"
proof -
  let ?S = "\<lparr>ncols = 3, rows = [[1, 2, 3]]\<rparr>"
  have wf: "wf_matrix ?S" by (simp add: wf_matrix_def)
  have nc: "ncols ?S \<noteq> 1" by simp
  obtain out where
    res: "high_pass_filter exact_arith ?S ''zero'' 1000 = Inr out"
    and shape: "ncols out = ncols ?S" "length (rows out) = length (rows ?S)"
    and wfo: "wf_matrix out"
    and entry: "\<forall>i < length (rows ?S). \<forall>k < ncols ?S.
              rows out ! i ! k =
                (if bin_frequency exact_arith (get_window_from_spectrum ?S) SAMPLING_RATE k < 1000 then 0
                 else rows ?S ! i ! k)"
    using high_pass_filter_zero [OF wf nc, where ops = exact_arith and f = 1000] by blast
  have "high_pass_filter exact_arith ?S ''zero'' 1000 = Inr \<lparr>ncols = 3, rows = [[0, 2, 3]]\<rparr>"
    by (simp add: high_pass_filter_def spectral_frequencies_def rfftfreq_def mul_rows_def
        get_window_from_spectrum_def SAMPLING_RATE_def exact_arith_def upt_conv_Cons)
  with wf nc show ?thesis by blast
qed

lemma mul_rows_ok:
  assumes "length v = ncols m"
  shows "\<exists>out. mul_rows m v = Inr out"
  using assms by (simp add: mul_rows_def)

lemma high_pass_filter_cases:
  assumes "spectral_frequencies ops (get_window_from_spectrum S) 20 False
             POWER_FREQUENCY SAMPLING_RATE = Inr freqs"
    and "length freqs = ncols S"
  shows "if t = ''zero'' \<or> t = ''linear'' \<or> t = ''quadratic'' \<or> t = ''none''
         then \<exists>out. high_pass_filter ops S t f = Inr out
         else high_pass_filter ops S t f = Inl (UnsupportedFilterType t)"
proof -
  have ok: "\<exists>out. mul_rows S (map g freqs) = Inr out" for g
    using mul_rows_ok [of "map g freqs" S] assms(2) by simp
  show ?thesis
    unfolding high_pass_filter_def assms(1) sum.case
    using ok by (simp only: if_True if_False split: if_split) blast
qed

text \<open>
  C7, as stated, fails on a spectrum of one column: there the filter fails for the four
  implemented types too, and for an unknown type the error is the ZeroDivisionError of
  the bin frequencies, raised before the filter type is looked at.
\<close>

theorem high_pass_filter_errors_one_column:
  "high_pass_filter exact_arith \<lparr>ncols = 1, rows = [[3]]\<rparr> ''linear'' 1000 = Inl ZeroDivisionError \<and>
   high_pass_filter exact_arith \<lparr>ncols = 1, rows = [[3]]\<rparr> ''cubic'' 1000 = Inl ZeroDivisionError \<and>
   high_pass_filter exact_arith \<lparr>ncols = 1, rows = [[3]]\<rparr> ''cubic'' 1000 \<noteq> Inl (UnsupportedFilterType ''cubic'')"
  by (simp add: high_pass_filter_one_column)

text \<open>
  C7 (amended): on every spectrum matrix whose column count is not 1,
  \<^verbatim>\<open>high_pass_filter\<close> fails with the error that names the offending filter type if and
  only if the filter type is not one of zero, linear, quadratic, none; it raises no other
  error, and for those four values it never fails.
\<close>

theorem high_pass_filter_errors:
  assumes "ncols S \<noteq> 1"
  shows "(high_pass_filter ops S t f = Inl (UnsupportedFilterType t)
            \<longleftrightarrow> \<not> (t = ''zero'' \<or> t = ''linear'' \<or> t = ''quadratic'' \<or> t = ''none'')) \<and>
         (\<forall>e. high_pass_filter ops S t f = Inl e \<longrightarrow> e = UnsupportedFilterType t) \<and>
         (t = ''zero'' \<or> t = ''linear'' \<or> t = ''quadratic'' \<or> t = ''none''
            \<longrightarrow> (\<exists>out. high_pass_filter ops S t f = Inr out))"
proof -
  obtain freqs where
    fr: "spectral_frequencies ops (get_window_from_spectrum S) 20 False
           POWER_FREQUENCY SAMPLING_RATE = Inr freqs"
    and len: "length freqs = ncols S"
    using spectral_frequencies_spectrum [OF assms] by metis
  note c = high_pass_filter_cases [OF fr len, where t = t and f = f]
  show ?thesis
  proof (cases "t = ''zero'' \<or> t = ''linear'' \<or> t = ''quadratic'' \<or> t = ''none''")
    case True
    with c obtain out where "high_pass_filter ops S t f = Inr out"
      by (auto simp only: if_True)
    with True show ?thesis by simp
  next
    case False
    with c have "high_pass_filter ops S t f = Inl (UnsupportedFilterType t)"
      by (simp only: if_False)
    with False show ?thesis by simp
  qed
qed

theorem high_pass_filter_errors_witness:
  "ncols \<lparr>ncols = 3, rows = [[1, 2, 3]]\<rparr> \<noteq> 1 \<and>
   high_pass_filter exact_arith \<lparr>ncols = 3, rows = [[1, 2, 3]]\<rparr> ''cubic'' 1000
     = Inl (UnsupportedFilterType ''cubic'') \<and>
   (\<exists>out. high_pass_filter exact_arith \<lparr>ncols = 3, rows = [[1, 2, 3]]\<rparr> ''quadratic'' 1000 = Inr out)"
proof -
  let ?S = "\<lparr>ncols = 3, rows = [[1, 2, 3]]\<rparr>"
  have nc: "ncols ?S \<noteq> 1" by simp
  have a: "\<not> (''cubic'' = ''zero'' \<or> ''cubic'' = ''linear'' \<or> ''cubic'' = ''quadratic''
              \<or> ''cubic'' = ''none'')"
    by simp
  have b: "''quadratic'' = ''zero'' \<or> ''quadratic'' = ''linear'' \<or> ''quadratic'' = ''quadratic''
              \<or> ''quadratic'' = ''none''"
    by simp
  note th1 = high_pass_filter_errors [OF nc, where ops = exact_arith and t = "''cubic''" and f = 1000]
  note th2 = high_pass_filter_errors [OF nc, where ops = exact_arith and t = "''quadratic''" and f = 1000]
  have "high_pass_filter exact_arith ?S ''cubic'' 1000 = Inl (UnsupportedFilterType ''cubic'')"
    using th1 [THEN conjunct1] a by (rule iffD2)
  moreover have "\<exists>out. high_pass_filter exact_arith ?S ''quadratic'' 1000 = Inr out"
    using th2 [THEN conjunct2, THEN conjunct2] b by (rule mp)
  ultimately show ?thesis using nc by (intro conjI)
qed

section \<open>Properties of the mains frequency lookup\<close>

lemma first_index_None: "first_index xs v = None \<longleftrightarrow> v \<notin> set xs"
  by (induction xs) auto

lemma first_index_Some:
  "first_index xs v = Some i \<Longrightarrow> i < length xs \<and> xs ! i = v \<and> (\<forall>j < i. xs ! j \<noteq> v)"
proof (induction xs arbitrary: i)
  case Nil
  then show ?case by simp
next
  case (Cons x xs)
  show ?case
  proof (cases "x = v")
    case True
    with Cons.prems show ?thesis by simp
  next
    case False
    with Cons.prems obtain i' where i': "first_index xs v = Some i'" "i = Suc i'"
      by auto
    from Cons.IH [OF i'(1)] False i'(2) show ?thesis
      by (auto simp: nth_Cons split: nat.splits)
  qed
qed

lemma take_cols_single:
  assumes "idx < ncols S"
  shows "take_cols S [idx] = Inr \<lparr>ncols = 1, rows = map (\<lambda>r. [r ! idx]) (rows S)\<rparr>"
  using assms by (simp add: take_cols_def)

lemma argmax_list_less: "xs \<noteq> [] \<Longrightarrow> argmax_list xs < length xs"
  by (induction xs rule: argmax_list.induct) (auto simp: Let_def)


lemma peak_frequencies_ok:
  assumes "wf_matrix S" and "ncols S \<noteq> 0" and "ncols S \<le> length freqs"
  shows "peak_frequencies S freqs = Inr (map (\<lambda>r. freqs ! argmax_list r) (rows S))"
    and "set (map (\<lambda>r. freqs ! argmax_list r) (rows S)) \<subseteq> set freqs"
proof -
  have idx: "argmax_list r < length freqs" if "r \<in> set (rows S)" for r
  proof -
    have "length r = ncols S" using assms(1) that by (simp add: wf_matrix_def)
    with assms(2) have "r \<noteq> []" by auto
    from argmax_list_less [OF this] \<open>length r = ncols S\<close> assms(3) show ?thesis by simp
  qed
  then have "\<not> (\<exists>i \<in> set (map argmax_list (rows S)). length freqs \<le> i)"
    by (auto simp: not_le)
  then show "peak_frequencies S freqs = Inr (map (\<lambda>r. freqs ! argmax_list r) (rows S))"
    using assms(2) unfolding peak_frequencies_def Let_def by (simp add: comp_def)
  show "set (map (\<lambda>r. freqs ! argmax_list r) (rows S)) \<subseteq> set freqs"
    using idx by auto
qed

lemma most_common_ok:
  assumes "peaks \<noteq> []"
  shows "\<exists>j. argmax (map (count_list peaks) (sort (remdups peaks))) = Inr j \<and>
             j < length (sort (remdups peaks)) \<and> sort (remdups peaks) ! j \<in> set peaks"
proof -
  let ?vals = "sort (remdups peaks)"
  let ?counts = "map (count_list peaks) ?vals"
  have ne: "?vals \<noteq> []"
    using assms by (metis length_0_conv length_sort remdups_eq_nil_iff)
  then have cne: "?counts \<noteq> []" by simp
  have j: "argmax_list ?counts < length ?vals"
    using argmax_list_less [OF cne] by simp
  then have "?vals ! argmax_list ?counts \<in> set ?vals"
    by (rule nth_mem)
  then have "?vals ! argmax_list ?counts \<in> set peaks" by simp
  with j cne show ?thesis by (simp add: argmax_def)
qed

lemma peak_amplitude_frequency_member:
  assumes "wf_matrix S" and "rows S \<noteq> []" and "ncols S \<noteq> 0" and "ncols S \<le> length freqs"
  shows "\<exists>f. peak_amplitude_frequency S freqs = Inr f \<and> f \<in> set freqs"
proof -
  let ?peaks = "map (\<lambda>r. freqs ! argmax_list r) (rows S)"
  note pk = peak_frequencies_ok [OF assms(1,3,4)]
  have "?peaks \<noteq> []" using assms(2) by simp
  from most_common_ok [OF this] obtain j where
    j: "argmax (map (count_list ?peaks) (sort (remdups ?peaks))) = Inr j"
       "sort (remdups ?peaks) ! j \<in> set ?peaks"
    by blast
  have "peak_amplitude_frequency S freqs = Inr (sort (remdups ?peaks) ! j)"
    unfolding peak_amplitude_frequency_def pk(1) using j(1) by (simp add: Let_def)
  with j(2) pk(2) show ?thesis by blast
qed

lemma mains_frequency_amplitude_lookup:
  assumes fr: "spectral_frequencies ops (get_window_from_spectrum S) 20 False pf sr = Inr freqs"
    and len: "length freqs = ncols S"
    and res: "resolve_mains_frequency S freqs mf = Inr f"
  shows "(mains_frequency_amplitude ops S mf pf sr = Inl (InvalidMainsFrequency f) \<longleftrightarrow> f \<notin> set freqs) \<and>
         (\<forall>e. mains_frequency_amplitude ops S mf pf sr = Inl e \<longrightarrow> e = InvalidMainsFrequency f) \<and>
         (f \<in> set freqs \<longrightarrow>
            (\<exists>idx < ncols S. freqs ! idx = f \<and> (\<forall>j < idx. freqs ! j \<noteq> f) \<and>
               mains_frequency_amplitude ops S mf pf sr =
                 Inr \<lparr>ncols = 1, rows = map (\<lambda>r. [r ! idx]) (rows S)\<rparr>))"
proof (cases "first_index freqs f")
  case None
  then have "f \<notin> set freqs" by (simp add: first_index_None)
  moreover have "mains_frequency_amplitude ops S mf pf sr = Inl (InvalidMainsFrequency f)"
    unfolding mains_frequency_amplitude_def fr using None res by simp
  ultimately show ?thesis by simp
next
  case (Some idx)
  from first_index_Some [OF Some] len have
    idx: "idx < ncols S" "freqs ! idx = f" "\<forall>j < idx. freqs ! j \<noteq> f"
    by simp_all
  have mem: "f \<in> set freqs"
    using Some first_index_None [of freqs f] by simp
  have "mains_frequency_amplitude ops S mf pf sr =
          Inr \<lparr>ncols = 1, rows = map (\<lambda>r. [r ! idx]) (rows S)\<rparr>"
    unfolding mains_frequency_amplitude_def fr
    using Some res take_cols_single [OF idx(1)] by simp
  with idx mem show ?thesis by auto
qed

text \<open>
  C3, as stated, fails on a spectrum of one column: the implied window is 0, no
  bin-frequency vector is derived, and the function raises ZeroDivisionError; it neither
  raises the error that names the frequency nor returns a column of amplitudes. When the
  mains frequency is to be detected it fails also on a spectrum without rows and on one
  without columns: there is no peak to vote on, and the argmax of an empty sequence
  raises a ValueError that names no frequency.
\<close>

theorem mains_frequency_amplitude_one_column:
  "mains_frequency_amplitude exact_arith \<lparr>ncols = 1, rows = [[2]]\<rparr> (Some 50) 50 6400
     = Inl ZeroDivisionError \<and>
   mains_frequency_amplitude exact_arith \<lparr>ncols = 3, rows = []\<rparr> None 50 6400
     = Inl EmptySequence \<and>
   mains_frequency_amplitude exact_arith \<lparr>ncols = 0, rows = [[]]\<rparr> None 50 6400
     = Inl EmptySequence"
  by (simp add: mains_frequency_amplitude_def spectral_frequencies_one_column
      spectral_frequencies_def rfftfreq_def get_window_from_spectrum_def
      resolve_mains_frequency_def peak_amplitude_frequency_def peak_frequencies_def
      argmax_def upt_conv_Cons)

text \<open>
  C3 (amended): for every spectrum whose column count is not 1 (with at least one row and
  one column when the mains frequency is to be detected) and every requested mains
  frequency, \<^verbatim>\<open>_mains_frequency_amplitude\<close> fails with the error that names the resolved
  frequency if and only if that frequency is not an exact member of the bin-frequency
  vector that the code derives from the implied window, and raises no other error;
  otherwise it returns the (rows, 1) column of the amplitudes at the first bin of that
  frequency. Requesting 13 Hz where 13 Hz is not a bin frequency fails.
\<close>

theorem mains_frequency_amplitude_exact_bin:
  assumes "wf_matrix S" and "ncols S \<noteq> 1"
    and "mf = None \<longrightarrow> rows S \<noteq> [] \<and> ncols S \<noteq> 0"
  shows "\<exists>freqs f.
           spectral_frequencies ops (get_window_from_spectrum S) 20 False pf sr = Inr freqs \<and>
           freqs = map (bin_frequency ops (get_window_from_spectrum S) sr) [0..<ncols S] \<and>
           resolve_mains_frequency S freqs mf = Inr f \<and>
           (mains_frequency_amplitude ops S mf pf sr = Inl (InvalidMainsFrequency f)
              \<longleftrightarrow> f \<notin> set freqs) \<and>
           (\<forall>e. mains_frequency_amplitude ops S mf pf sr = Inl e
                  \<longrightarrow> e = InvalidMainsFrequency f) \<and>
           (f \<in> set freqs \<longrightarrow>
              (\<exists>idx < ncols S. freqs ! idx = f \<and> (\<forall>j < idx. freqs ! j \<noteq> f) \<and>
                 mains_frequency_amplitude ops S mf pf sr =
                   Inr \<lparr>ncols = 1, rows = map (\<lambda>r. [r ! idx]) (rows S)\<rparr>))"
proof -
  let ?freqs = "map (bin_frequency ops (get_window_from_spectrum S) sr) [0..<ncols S]"
  have fr: "spectral_frequencies ops (get_window_from_spectrum S) 20 False pf sr = Inr ?freqs"
    by (rule spectral_frequencies_full [OF assms(2)])
  have len: "length ?freqs = ncols S" by simp
  obtain f where res: "resolve_mains_frequency S ?freqs mf = Inr f"
  proof (cases mf)
    case None
    with assms(3) have "rows S \<noteq> []" "ncols S \<noteq> 0" by simp_all
    from peak_amplitude_frequency_member [OF assms(1) this, of ?freqs]
    obtain f where "peak_amplitude_frequency S ?freqs = Inr f" by auto
    with None that show ?thesis by (simp add: resolve_mains_frequency_def)
  next
    case (Some g)
    with that show ?thesis by (simp add: resolve_mains_frequency_def)
  qed
  from mains_frequency_amplitude_lookup [OF fr len res] fr res show ?thesis
    by blast
qed

lemma bins_three_columns:
  "map (bin_frequency exact_arith (get_window_from_spectrum \<lparr>ncols = 3, rows = rs\<rparr>) 6400)
     [0..<3] = [0, 1600, 3200]"
  by (simp add: bin_frequency_def get_window_from_spectrum_def exact_arith_def upt_conv_Cons)

theorem mains_frequency_amplitude_exact_bin_witness:
  "wf_matrix \<lparr>ncols = 3, rows = [[1, 2, 3], [4, 5, 6]]\<rparr> \<and>
   ncols \<lparr>ncols = 3, rows = [[1, 2, 3], [4, 5, 6]]\<rparr> \<noteq> 1 \<and>
   mains_frequency_amplitude exact_arith \<lparr>ncols = 3, rows = [[1, 2, 3], [4, 5, 6]]\<rparr>
     (Some 13) 50 6400 = Inl (InvalidMainsFrequency 13)"
proof -
  let ?S = "\<lparr>ncols = 3, rows = [[1, 2, 3], [4, 5, 6]]\<rparr>"
  have wf: "wf_matrix ?S" by (simp add: wf_matrix_def)
  have nc: "ncols ?S \<noteq> 1" by simp
  have auto_mode: "Some (13::real) = None \<longrightarrow> rows ?S \<noteq> [] \<and> ncols ?S \<noteq> 0" by simp
  from mains_frequency_amplitude_exact_bin
         [OF wf nc auto_mode, where ops = exact_arith and pf = 50 and sr = 6400]
  obtain freqs f where
    freqs: "freqs = map (bin_frequency exact_arith (get_window_from_spectrum ?S) 6400)
                      [0..<ncols ?S]"
    and f: "resolve_mains_frequency ?S freqs (Some 13) = Inr f"
    and err: "mains_frequency_amplitude exact_arith ?S (Some 13) 50 6400
                = Inl (InvalidMainsFrequency f) \<longleftrightarrow> f \<notin> set freqs"
    by blast
  have f13: "f = 13" using f by (simp add: resolve_mains_frequency_def)
  have "freqs = [0, 1600, 3200]"
    using freqs bins_three_columns [of "[[1, 2, 3], [4, 5, 6]]"] by simp
  then have "f \<notin> set freqs" using f13 by simp
  with err f13
  have "mains_frequency_amplitude exact_arith ?S (Some 13) 50 6400
          = Inl (InvalidMainsFrequency 13)"
    by simp
  with wf nc show ?thesis by (intro conjI)
qed

lemma mains_frequency_amplitude_member_example:
  "mains_frequency_amplitude exact_arith \<lparr>ncols = 3, rows = [[1, 2, 3], [4, 5, 6]]\<rparr>
     (Some 1600) 50 6400 = Inr \<lparr>ncols = 1, rows = [[2], [5]]\<rparr>"
  by (simp add: mains_frequency_amplitude_def spectral_frequencies_def rfftfreq_def
      get_window_from_spectrum_def resolve_mains_frequency_def take_cols_def exact_arith_def
      upt_conv_Cons)

lemma mains_frequency_amplitude_auto_example:
  "mains_frequency_amplitude exact_arith
     \<lparr>ncols = 3, rows = [[1, 2, 3], [4, 5, 6], [7, 9, 1]]\<rparr> None 50 6400
     = Inr \<lparr>ncols = 1, rows = [[3], [6], [1]]\<rparr>"
  by (simp add: mains_frequency_amplitude_def spectral_frequencies_def rfftfreq_def
      get_window_from_spectrum_def resolve_mains_frequency_def take_cols_def exact_arith_def
      upt_conv_Cons peak_amplitude_frequency_def peak_frequencies_def argmax_def Let_def)

lemma div_matrix_no_frequency_error:
  "div_matrix a b \<noteq> Inl (InvalidMainsFrequency f)"
  by (simp add: div_matrix_def split: option.split)

text \<open>
  C4, as stated, fails on a spectrum of one column: its implied window 0 produces no
  50 Hz bin, yet both features raise ZeroDivisionError, not the error of an invalid mains
  frequency.
\<close>

theorem default_mains_frequency_one_column:
  "harmonics_energy_distribution exact_arith \<lparr>ncols = 2, rows = [[1, 1]]\<rparr>
     \<lparr>ncols = 1, rows = [[2]]\<rparr> = Inl ZeroDivisionError \<and>
   total_harmonic_distortion exact_arith \<lparr>ncols = 2, rows = [[1, 1]]\<rparr>
     \<lparr>ncols = 1, rows = [[2]]\<rparr> = Inl ZeroDivisionError"
  by (simp add: harmonics_energy_distribution_def total_harmonic_distortion_def Let_def
      mains_frequency_amplitude_def spectral_frequencies_one_column)

text \<open>
  C4 (amended): \<^verbatim>\<open>harmonics_energy_distribution\<close> and \<^verbatim>\<open>total_harmonic_distortion\<close>
  resolve the mains amplitude with the mains frequency 50 Hz and the sampling rate 6400,
  whatever the harmonic amplitudes are; on every spectrum whose column count is not 1,
  each of them raises the error that names 50 Hz if and only if no bin frequency that the
  code derives from the implied window is exactly 50 Hz.
\<close>

theorem default_mains_frequency:
  assumes "ncols S \<noteq> 1"
  shows "harmonics_energy_distribution ops H S =
           (case mains_frequency_amplitude ops S (Some 50) 50 6400 of
              Inl e \<Rightarrow> Inl e | Inr m \<Rightarrow> div_matrix H m) \<and>
         total_harmonic_distortion ops H S =
           (case mains_frequency_amplitude ops S (Some 50) 50 6400 of
              Inl e \<Rightarrow> Inl e | Inr m \<Rightarrow> div_matrix (rms H) m) \<and>
         (harmonics_energy_distribution ops H S = Inl (InvalidMainsFrequency 50) \<longleftrightarrow>
            (\<forall>k < ncols S. bin_frequency ops (get_window_from_spectrum S) 6400 k \<noteq> 50)) \<and>
         (total_harmonic_distortion ops H S = Inl (InvalidMainsFrequency 50) \<longleftrightarrow>
            (\<forall>k < ncols S. bin_frequency ops (get_window_from_spectrum S) 6400 k \<noteq> 50))"
proof -
  let ?freqs = "map (bin_frequency ops (get_window_from_spectrum S) 6400) [0..<ncols S]"
  let ?none = "\<forall>k < ncols S. bin_frequency ops (get_window_from_spectrum S) 6400 k \<noteq> 50"
  have hed: "harmonics_energy_distribution ops H S =
           (case mains_frequency_amplitude ops S (Some 50) 50 6400 of
              Inl e \<Rightarrow> Inl e | Inr m \<Rightarrow> div_matrix H m)"
    by (simp add: harmonics_energy_distribution_def POWER_FREQUENCY_def SAMPLING_RATE_def)
  have thd: "total_harmonic_distortion ops H S =
           (case mains_frequency_amplitude ops S (Some 50) 50 6400 of
              Inl e \<Rightarrow> Inl e | Inr m \<Rightarrow> div_matrix (rms H) m)"
    by (simp add: total_harmonic_distortion_def POWER_FREQUENCY_def SAMPLING_RATE_def Let_def)
  have fr: "spectral_frequencies ops (get_window_from_spectrum S) 20 False 50 6400 = Inr ?freqs"
    by (rule spectral_frequencies_full [OF assms])
  have res: "resolve_mains_frequency S ?freqs (Some 50) = Inr 50"
    by (simp add: resolve_mains_frequency_def)
  have len: "length ?freqs = ncols S" by simp
  note look = mains_frequency_amplitude_lookup [OF fr len res]
  have mem: "50 \<in> set ?freqs \<longleftrightarrow> \<not> ?none" by auto
  have both: "(case mains_frequency_amplitude ops S (Some 50) 50 6400 of
                 Inl e \<Rightarrow> Inl e | Inr m \<Rightarrow> div_matrix X m) = Inl (InvalidMainsFrequency 50)
              \<longleftrightarrow> ?none" for X
  proof (cases "50 \<in> set ?freqs")
    case True
    with look obtain m where "mains_frequency_amplitude ops S (Some 50) 50 6400 = Inr m"
      by blast
    with True mem show ?thesis by (simp add: div_matrix_no_frequency_error)
  next
    case False
    with look have "mains_frequency_amplitude ops S (Some 50) 50 6400
                      = Inl (InvalidMainsFrequency 50)"
      by blast
    with False mem show ?thesis by simp
  qed
  show ?thesis
    unfolding hed thd using both [of H] both [of "rms H"] by (intro conjI) simp_all
qed

theorem default_mains_frequency_witness:
  "ncols \<lparr>ncols = 3, rows = [[1, 2, 3]]\<rparr> \<noteq> 1 \<and>
   harmonics_energy_distribution exact_arith \<lparr>ncols = 2, rows = [[1, 1]]\<rparr>
     \<lparr>ncols = 3, rows = [[1, 2, 3]]\<rparr> = Inl (InvalidMainsFrequency 50) \<and>
   total_harmonic_distortion exact_arith \<lparr>ncols = 2, rows = [[1, 1]]\<rparr>
     \<lparr>ncols = 3, rows = [[1, 2, 3]]\<rparr> = Inl (InvalidMainsFrequency 50)"
proof -
  let ?S = "\<lparr>ncols = 3, rows = [[1, 2, 3]]\<rparr>"
  let ?H = "\<lparr>ncols = 2, rows = [[1, 1]]\<rparr>"
  have nc: "ncols ?S \<noteq> 1" by simp
  have "map (bin_frequency exact_arith (get_window_from_spectrum ?S) 6400) [0..<3]
          = [0, 1600, 3200]"
    by (rule bins_three_columns)
  then have bins:
    "\<forall>k < ncols ?S. bin_frequency exact_arith (get_window_from_spectrum ?S) 6400 k \<noteq> 50"
    by (simp add: upt_conv_Cons less_Suc_eq numeral_3_eq_3)
  note th = default_mains_frequency [OF nc, where ops = exact_arith and H = ?H]
  have "harmonics_energy_distribution exact_arith ?H ?S = Inl (InvalidMainsFrequency 50)"
    using th [THEN conjunct2, THEN conjunct2, THEN conjunct1] bins by (rule iffD2)
  moreover
  have "total_harmonic_distortion exact_arith ?H ?S = Inl (InvalidMainsFrequency 50)"
    using th [THEN conjunct2, THEN conjunct2, THEN conjunct2] bins by (rule iffD2)
  ultimately show ?thesis using nc by (intro conjI)
qed

section \<open>Odd-even ratio and tristimulus\<close>

lemma arange_odd: "arange 0 20 20 = [0]"
  by code_simp

lemma arange_even: "arange 1 20 20 = [1]"
  by code_simp

lemma arange_step_two: "arange 0 20 2 = [0, 2, 4, 6, 8, 10, 12, 14, 16, 18]"
  by code_simp

text \<open>
  With the step 20 both index ranges have one element, so the ratio of the two means is
  the ratio of the first two harmonic amplitudes.
\<close>

lemma odd_even_ratio_first_two:
  assumes "2 \<le> ncols H"
  shows "odd_even_ratio H = Inr (column (map (\<lambda>r. r ! 0 / r ! 1) (rows H)))"
proof -
  have "take_cols H [0] = Inr \<lparr>ncols = 1, rows = map (\<lambda>r. [r ! 0]) (rows H)\<rparr>"
    using assms by (simp add: take_cols_def)
  moreover have "take_cols H [1] = Inr \<lparr>ncols = 1, rows = map (\<lambda>r. [r ! 1]) (rows H)\<rparr>"
    using assms by (simp add: take_cols_def)
  moreover have "map2 (/) (map (\<lambda>r. r ! 0) rs) (map (\<lambda>r. r ! 1) rs)
                   = map (\<lambda>r. r ! 0 / r ! 1) rs" for rs :: "real list list"
    by (induction rs) simp_all
  ultimately show ?thesis
    unfolding odd_even_ratio_def arange_odd arange_even Let_def
    by (simp add: mean_axis1_def comp_def)
qed

text \<open>
  C1: \<^verbatim>\<open>odd_even_ratio\<close> should return, per row, the mean of the harmonics of odd order
  (1, 3, ..., 19) over the mean of those of even order (2, 4, ..., 20). On the amplitudes
  1, 2, ..., 20 that ratio is 10/11; the code returns 1/2, the first amplitude over the
  second.
\<close>

theorem odd_even_ratio_ignores_higher_harmonics:
  "odd_even_ratio \<lparr>ncols = 20,
      rows = [[1, 2, 3, 4, 5, 6, 7, 8, 9, 10, 11, 12, 13, 14, 15, 16, 17, 18, 19, 20]]\<rparr>
     = Inr \<lparr>ncols = 1, rows = [[1 / 2]]\<rparr> \<and>
   odd_even_ratio_spec [1, 2, 3, 4, 5, 6, 7, 8, 9, 10, 11, 12, 13, 14, 15, 16, 17, 18, 19, 20]
     = 10 / 11"
  by (simp add: odd_even_ratio_first_two column_def odd_even_ratio_spec_def)

text \<open>
  On a single row of at least four columns the three components are the first amplitude,
  the sum of the next three and the sum of the slice \<^verbatim>\<open>4:9\<close> (five amplitudes), each
  over the sum of the whole row.
\<close>

lemma tristiumulus_single_row:
  assumes "4 \<le> ncols H" and "rows H = [x]"
  shows "tristiumulus H =
           Inr \<lparr>ncols = 3,
                rows = [[x ! 0 / sum_list x,
                         (x ! 1 + x ! 2 + x ! 3) / sum_list x,
                         sum_list (take 5 (drop 4 x)) / sum_list x]]\<rparr>"
  using assms
  by (simp add: tristiumulus_def column_at_def take_cols_def slice_cols_def sum_axis1_def
      Let_def)

text \<open>
  C2: \<^verbatim>\<open>tristiumulus\<close> should return \<open>T1 = x1/S\<close>, \<open>T2 = (x2+x3+x4)/S\<close> and
  \<open>T3 = (x5+...+x10)/S\<close>. On the amplitudes 1, 2, ..., 20 (\<open>S = 210\<close>) the third
  component should be 45/210 = 3/14; the code returns 35/210 = 1/6, because the slice
  \<^verbatim>\<open>4:9\<close> stops at the ninth harmonic.
\<close>

theorem tristiumulus_third_component:
  "tristiumulus \<lparr>ncols = 20,
      rows = [[1, 2, 3, 4, 5, 6, 7, 8, 9, 10, 11, 12, 13, 14, 15, 16, 17, 18, 19, 20]]\<rparr>
     = Inr \<lparr>ncols = 3, rows = [[1 / 210, 3 / 70, 1 / 6]]\<rparr> \<and>
   tristimulus_spec [1, 2, 3, 4, 5, 6, 7, 8, 9, 10, 11, 12, 13, 14, 15, 16, 17, 18, 19, 20]
     = [1 / 210, 3 / 70, 3 / 14]"
  by (simp add: tristiumulus_def tristimulus_spec_def column_at_def take_cols_def
      slice_cols_def sum_axis1_def Let_def)

section \<open>Properties of the harmonic bin selection\<close>






text \<open>
  Without a bin there is nothing to select: on the empty vector the argmin raises.
\<close>

lemma get_harmonics_indices_no_bins:
  "get_harmonics_indices ops [] 1 pf = Inl EmptySequence"
  by (simp add: get_harmonics_indices_def)


lemma get_harmonics_indices_tie_example:
  "get_harmonics_indices exact_arith [0, 100] 1 50 = Inr [0]"
  by (simp add: get_harmonics_indices_def clamp_negative_def harmonic_target_def
      exact_arith_def upt_conv_Cons)


section \<open>Properties of the peak frequency vote\<close>

lemma argmax_list_ge:
  "k < length xs \<Longrightarrow> xs ! k \<le> xs ! argmax_list xs"
proof (induction xs arbitrary: k rule: argmax_list.induct)
  case 1
  then show ?case by simp
next
  case (2 x)
  then show ?case by simp
next
  case (3 x y ys)
  let ?j = "argmax_list (y # ys)"
  show ?case
  proof (cases "(y # ys) ! ?j \<le> x")
    case True
    then have a: "argmax_list (x # y # ys) = 0" by simp
    show ?thesis
    proof (cases k)
      case 0
      with a show ?thesis by simp
    next
      case (Suc k')
      with "3.prems" have "k' < length (y # ys)" by simp
      from "3.IH" [OF this] True have "(y # ys) ! k' \<le> x" by simp
      with a Suc show ?thesis by simp
    qed
  next
    case False
    then have a: "argmax_list (x # y # ys) = Suc ?j" by simp
    show ?thesis
    proof (cases k)
      case 0
      with a False show ?thesis by simp
    next
      case (Suc k')
      with "3.prems" have "k' < length (y # ys)" by simp
      from "3.IH" [OF this] a Suc show ?thesis by simp
    qed
  qed
qed

lemma argmax_list_first:
  "k < argmax_list xs \<Longrightarrow> xs ! k < xs ! argmax_list xs"
proof (induction xs arbitrary: k rule: argmax_list.induct)
  case 1
  then show ?case by simp
next
  case (2 x)
  then show ?case by simp
next
  case (3 x y ys)
  let ?j = "argmax_list (y # ys)"
  show ?case
  proof (cases "(y # ys) ! ?j \<le> x")
    case True
    with "3.prems" show ?thesis by simp
  next
    case False
    then have a: "argmax_list (x # y # ys) = Suc ?j" by simp
    show ?thesis
    proof (cases k)
      case 0
      with a False show ?thesis by simp
    next
      case (Suc k')
      with "3.prems" a have "k' < ?j" by simp
      from "3.IH" [OF this] a Suc show ?thesis by simp
    qed
  qed
qed

lemma most_common_smallest:
  fixes peaks :: "real list"
  assumes "peaks \<noteq> []"
  defines "values \<equiv> sort (remdups peaks)"
  defines "j \<equiv> argmax_list (map (count_list peaks) values)"
  shows "argmax (map (count_list peaks) values) = Inr j"
    and "values ! j \<in> set peaks"
    and "\<forall>u \<in> set peaks. count_list peaks u \<le> count_list peaks (values ! j)"
    and "\<forall>u \<in> set peaks. count_list peaks u = count_list peaks (values ! j) \<longrightarrow> values ! j \<le> u"
proof -
  let ?counts = "map (count_list peaks) values"
  have vset: "set values = set peaks" by (simp add: values_def)
  have srt: "sorted values" by (simp add: values_def)
  have ne: "values \<noteq> []" using assms(1) vset by auto
  then have cne: "?counts \<noteq> []" by simp
  then show "argmax ?counts = Inr j" by (simp add: argmax_def j_def)
  have j: "j < length values"
    using argmax_list_less [OF cne] by (simp add: j_def)
  then have "values ! j \<in> set values" by (rule nth_mem)
  with vset show "values ! j \<in> set peaks" by simp
  have cj: "?counts ! j = count_list peaks (values ! j)" using j by simp
  have at: "\<exists>k < length values. values ! k = u" if "u \<in> set peaks" for u
    using that vset by (metis in_set_conv_nth)
  show "\<forall>u \<in> set peaks. count_list peaks u \<le> count_list peaks (values ! j)"
  proof
    fix u assume "u \<in> set peaks"
    from at [OF this] obtain k where k: "k < length values" "values ! k = u" by blast
    then have "?counts ! k \<le> ?counts ! argmax_list ?counts"
      by (intro argmax_list_ge) simp
    with k cj show "count_list peaks u \<le> count_list peaks (values ! j)"
      by (simp add: j_def)
  qed
  show "\<forall>u \<in> set peaks. count_list peaks u = count_list peaks (values ! j) \<longrightarrow> values ! j \<le> u"
  proof (intro ballI impI)
    fix u assume "u \<in> set peaks"
      and e: "count_list peaks u = count_list peaks (values ! j)"
    from at [OF this(1)] obtain k where k: "k < length values" "values ! k = u" by blast
    have "j \<le> k"
    proof (rule ccontr)
      assume "\<not> j \<le> k"
      then have "k < argmax_list ?counts" by (simp add: j_def)
      then have "?counts ! k < ?counts ! argmax_list ?counts" by (rule argmax_list_first)
      with k cj e show False by (simp add: j_def)
    qed
    with srt k show "values ! j \<le> u"
      by (auto simp: sorted_iff_nth_mono)
  qed
qed

text \<open>
  C10: on a non-empty batch whose peak bins have a frequency each,
  \<^verbatim>\<open>_peak_amplitude_frequency\<close> returns one of the per-row peak frequencies, no peak
  frequency is more common than it, and it is the smallest of the peak frequencies that
  are as common: when several frequencies are tied for most common, the smallest wins.
\<close>

theorem peak_amplitude_frequency_smallest:
  assumes "wf_matrix S" and "rows S \<noteq> []" and "ncols S \<noteq> 0" and "ncols S \<le> length freqs"
  shows "\<exists>peaks v.
           peaks = map (\<lambda>r. freqs ! argmax_list r) (rows S) \<and>
           peak_frequencies S freqs = Inr peaks \<and>
           peak_amplitude_frequency S freqs = Inr v \<and>
           v \<in> set peaks \<and>
           (\<forall>u \<in> set peaks. count_list peaks u \<le> count_list peaks v) \<and>
           (\<forall>u \<in> set peaks. count_list peaks u = count_list peaks v \<longrightarrow> v \<le> u)"
proof -
  let ?peaks = "map (\<lambda>r. freqs ! argmax_list r) (rows S)"
  let ?vals = "sort (remdups ?peaks)"
  let ?j = "argmax_list (map (count_list ?peaks) ?vals)"
  have pk: "peak_frequencies S freqs = Inr ?peaks"
    by (rule peak_frequencies_ok(1) [OF assms(1,3,4)])
  have ne: "?peaks \<noteq> []" using assms(2) by simp
  note mc = most_common_smallest [OF ne]
  have "peak_amplitude_frequency S freqs = Inr (?vals ! ?j)"
    unfolding peak_amplitude_frequency_def pk using mc(1) by (simp add: Let_def)
  with pk mc(2,3,4) show ?thesis by blast
qed

theorem peak_amplitude_frequency_smallest_witness:
  "wf_matrix \<lparr>ncols = 3, rows = [[1, 2, 3], [3, 2, 1]]\<rparr> \<and>
   rows \<lparr>ncols = 3, rows = [[1, 2, 3], [3, 2, 1]]\<rparr> \<noteq> [] \<and>
   ncols \<lparr>ncols = 3, rows = [[1, 2, 3], [3, 2, 1 :: real]]\<rparr> \<noteq> 0 \<and>
   ncols \<lparr>ncols = 3, rows = [[1, 2, 3], [3, 2, 1 :: real]]\<rparr> \<le> length [0, 1600, 3200 :: real] \<and>
   peak_frequencies \<lparr>ncols = 3, rows = [[1, 2, 3], [3, 2, 1]]\<rparr> [0, 1600, 3200] = Inr [3200, 0] \<and>
   peak_amplitude_frequency \<lparr>ncols = 3, rows = [[1, 2, 3], [3, 2, 1]]\<rparr> [0, 1600, 3200] = Inr 0"
proof -
  let ?S = "\<lparr>ncols = 3, rows = [[1, 2, 3], [3, 2, 1]]\<rparr>"
  let ?freqs = "[0, 1600, 3200 :: real]"
  have wf: "wf_matrix ?S" by (simp add: wf_matrix_def)
  have h2: "rows ?S \<noteq> []" by simp
  have h3: "ncols ?S \<noteq> 0" by simp
  have h4: "ncols ?S \<le> length ?freqs" by simp
  from peak_amplitude_frequency_smallest [OF wf h2 h3 h4]
  obtain peaks v where
    peaks: "peaks = map (\<lambda>r. ?freqs ! argmax_list r) (rows ?S)"
    and pf: "peak_frequencies ?S ?freqs = Inr peaks"
    and res: "peak_amplitude_frequency ?S ?freqs = Inr v"
    and least: "\<forall>u \<in> set peaks. count_list peaks u = count_list peaks v \<longrightarrow> v \<le> u"
    and mem: "v \<in> set peaks"
    by blast
  have pk: "peaks = [3200, 0]" using peaks by simp
  with mem have "v = 3200 \<or> v = 0" by auto
  moreover from least pk have "count_list [3200, 0 :: real] 0 = count_list [3200, 0] v \<longrightarrow> v \<le> 0"
    by simp
  ultimately have "v = 0" by auto
  with res pf pk wf h2 h3 h4 show ?thesis by simp
qed

section \<open>Spectral flatness\<close>












end
